theory Spec2Isabelle
  imports Main "HOL-Library.Sublist"
begin

section \<open>The parsed document tree\<close>

text \<open>
  The builder never looks at markdown text: \<open>Builder.__init__\<close> hands the text to the
  markdown library and the resulting HTML to BeautifulSoup, and every method works on the
  tree that comes back. That tree is the input of the embedding. A page element is a tag
  with a name and its contents, or a string (bs4's \<open>NavigableString\<close>); attributes are
  left out, since no method reads one. Strings are sequences of 8-bit characters, read as
  the code points 0 to 255 of a Python \<open>str\<close>.
\<close>

datatype node = Tag string "node list" | Text string

text \<open>
  bs4 reaches the siblings of an element through its \<open>next_sibling\<close> link. An element
  is therefore a node together with the nodes that follow it under the same parent, in
  document order.
\<close>

type_synonym element = "node \<times> node list"

fun contents :: "node \<Rightarrow> node list" where
  "contents (Tag n cs) = cs"
| "contents (Text s) = []"

fun is_tag :: "node \<Rightarrow> bool" where
  "is_tag (Tag n cs) = True"
| "is_tag (Text s) = False"

fun named :: "string \<Rightarrow> node \<Rightarrow> bool" where
  "named nm (Tag n cs) = (n = nm)"
| "named nm (Text s) = False"

text \<open>\<open>Tag.__bool__\<close> is constantly true; a string is falsy exactly when it is empty.\<close>

fun truthy :: "node \<Rightarrow> bool" where
  "truthy (Tag n cs) = True"
| "truthy (Text s) = (s \<noteq> [])"

text \<open>The \<open>.text\<close> property: all strings below the element, concatenated in document order.\<close>

fun get_text :: "node \<Rightarrow> string" where
  "get_text (Text s) = s"
| "get_text (Tag n cs) = concat (map get_text cs)"

text \<open>The generator \<open>next_siblings\<close>: every later sibling, each with its own later siblings.\<close>

fun next_siblings :: "node list \<Rightarrow> element list" where
  "next_siblings [] = []"
| "next_siblings (x # xs) = (x, xs) # next_siblings xs"

text \<open>The generator \<open>descendants\<close>: a tag, then what is below it, then what follows it.\<close>

fun descendants :: "node list \<Rightarrow> element list" where
  "descendants [] = []"
| "descendants (Text s # rest) = (Text s, rest) # descendants rest"
| "descendants (Tag n cs # rest) = (Tag n cs, rest) # descendants cs @ descendants rest"

definition find_all :: "string \<Rightarrow> node \<Rightarrow> element list" where
  "find_all nm root = filter (\<lambda>el. named nm (fst el)) (descendants (contents root))"

definition find :: "string \<Rightarrow> node \<Rightarrow> element option" where
  "find nm root = (case find_all nm root of [] \<Rightarrow> None | el # _ \<Rightarrow> Some el)"

definition find_next_siblings :: "string \<Rightarrow> element \<Rightarrow> element list" where
  "find_next_siblings nm el = filter (\<lambda>s. named nm (fst s)) (next_siblings (snd el))"

definition find_next_sibling :: "string \<Rightarrow> element \<Rightarrow> element option" where
  "find_next_sibling nm el = (case find_next_siblings nm el of [] \<Rightarrow> None | s # _ \<Rightarrow> Some s)"

text \<open>
  \<open>BeautifulSoup(markup, "html.parser")\<close> returns the root object, a tag named
  \<open>[document]\<close> that has no siblings. \<open>create_note\<close> serialises one element with
  \<open>str\<close> and parses it again; the round trip is taken to give the element back, as
  the only child of a fresh root.
\<close>

definition BeautifulSoup :: "node list \<Rightarrow> node" where
  "BeautifulSoup cs = Tag ''[document]'' cs"

definition reparse :: "node \<Rightarrow> node" where
  "reparse n = BeautifulSoup [n]"

section \<open>Strings\<close>

definition removesuffix :: "string \<Rightarrow> string \<Rightarrow> string" where
  "removesuffix s suf =
     (if suf \<noteq> [] \<and> suffix suf s then take (length s - length suf) s else s)"

text \<open>
  \<open>str.replace(old, new)\<close>: non-overlapping occurrences of \<open>old\<close>, left to right. With
  an empty \<open>old\<close> Python puts \<open>new\<close> before every character and at the end.
\<close>

function replace :: "string \<Rightarrow> string \<Rightarrow> string \<Rightarrow> string" where
  "replace [] new s = new @ concat (map (\<lambda>c. c # new) s)"
| "replace (a # old) new [] = []"
| "replace (a # old) new (c # s) =
     (if prefix (a # old) (c # s) then new @ replace (a # old) new (drop (length old) s)
      else c # replace (a # old) new s)"
  by pat_completeness auto
termination
  by (relation "measure (\<lambda>(old, new, s). length s)") auto

text \<open>
  \<open>str.lower\<close> on the code points below 256: the capitals A to Z and the Latin-1
  capitals other than the multiplication sign move up by 32, everything else stays.
\<close>

definition lower_char :: "char \<Rightarrow> char" where
  "lower_char c =
     (let n = of_char c :: nat
      in if (65 \<le> n \<and> n \<le> 90) \<or> (192 \<le> n \<and> n \<le> 222 \<and> n \<noteq> 215)
         then char_of (n + 32) else c)"

definition lower :: "string \<Rightarrow> string" where
  "lower s = map lower_char s"

section \<open>The world outside the builder\<close>

text \<open>
  Three things reach outside: \<open>secrets.randbelow\<close>, \<open>click.echo\<close>, and the file system
  under the relative path \<open>dist\<close>. The world carries the draws still to come, the lines
  printed so far, what sits at \<open>dist\<close>, and the packages written, by path.
\<close>

datatype error =
  ValueError | UnboundLocalError | FileExistsError | FileNotFoundError | NotADirectoryError

datatype path_kind = Missing | Directory | RegularFile

record anki_model =
  model_id :: int
  model_name :: string
  model_fields :: "string list"
  model_templates :: "(string \<times> string \<times> string) list"

record anki_note =
  note_model :: anki_model
  note_fields :: "string list"
  note_tags :: "string list"

record anki_deck =
  deck_id :: int
  deck_name :: string
  deck_notes :: "anki_note list"

text \<open>\<open>genanki.Package\<close> wraps a single deck into a one-element list of decks.\<close>

type_synonym package = "anki_deck list"

record world =
  entropy :: "nat \<Rightarrow> int"
  stdout :: "string list"
  dist :: path_kind
  files :: "string \<rightharpoonup> package"

definition randbelow :: "int \<Rightarrow> world \<Rightarrow> int \<times> world" where
  "randbelow n w = (entropy w 0 mod n, w\<lparr>entropy := (\<lambda>i. entropy w (Suc i))\<rparr>)"

definition echo :: "string \<Rightarrow> world \<Rightarrow> world" where
  "echo line w = w\<lparr>stdout := stdout w @ [line]\<rparr>"

text \<open>\<open>os.path.exists\<close>, \<open>os.path.isdir\<close> and \<open>os.mkdir\<close>, at the path \<open>dist\<close>.\<close>

definition path_exists :: "world \<Rightarrow> bool" where
  "path_exists w = (dist w \<noteq> Missing)"

definition path_isdir :: "world \<Rightarrow> bool" where
  "path_isdir w = (dist w = Directory)"

definition mkdir :: "world \<Rightarrow> (error + unit) \<times> world" where
  "mkdir w = (if dist w = Missing then (Inr (), w\<lparr>dist := Directory\<rparr>) else (Inl FileExistsError, w))"

definition write_to_file :: "package \<Rightarrow> string \<Rightarrow> world \<Rightarrow> (error + unit) \<times> world" where
  "write_to_file p path w =
     (case dist w of
        Missing \<Rightarrow> (Inl FileNotFoundError, w)
      | RegularFile \<Rightarrow> (Inl NotADirectoryError, w)
      | Directory \<Rightarrow> (Inr (), w\<lparr>files := (files w)(path \<mapsto> p)\<rparr>))"

definition generate_identifier :: "world \<Rightarrow> int \<times> world" where
  "generate_identifier w = (let (r, w') = randbelow 1000000000 w in (999999999 + r, w'))"

section \<open>The data classes\<close>

record model =
  id' :: int

record card = model +
  front :: string
  back' :: string
  tags :: "string list"

text \<open>
  \<open>SubDeck\<close> extends \<open>Deck\<close>, whose \<open>sub_decks\<close> are \<open>SubDeck\<close>s again, so the
  sub-deck is a datatype with the inherited fields first.
\<close>

datatype subdeck =
  SubDeck (subdeck_id: int) (subdeck_name: string) (subdeck_sub_decks: "subdeck list")
    (cards: "card list")

record deck = model +
  name :: string
  sub_decks :: "subdeck list"

definition add_subdeck :: "deck \<Rightarrow> subdeck \<Rightarrow> deck" where
  "add_subdeck d sd = d\<lparr>sub_decks := sub_decks d @ [sd]\<rparr>"

definition add_card :: "subdeck \<Rightarrow> card \<Rightarrow> subdeck" where
  "add_card sd c = SubDeck (subdeck_id sd) (subdeck_name sd) (subdeck_sub_decks sd) (cards sd @ [c])"

definition file_name :: "deck \<Rightarrow> string" where
  "file_name d = lower (replace '' '' ''-'' (name d))"

section \<open>The builder\<close>

text \<open>
  A method that can raise returns \<open>Inl\<close> of the error, or \<open>Inr\<close> of its value, paired
  with the world it leaves behind. \<open>self.soup\<close> is passed as the root node. The
  property \<open>Builder.model\<close> is \<open>simple_model\<close> here, after the name it gives the
  model, because \<open>model\<close> is the base record of the data classes.
\<close>

definition simple_model :: "world \<Rightarrow> anki_model \<times> world" where
  "simple_model w =
     (let (i, w') = generate_identifier w
      in (\<lparr>model_id = i, model_name = ''Simple Model'',
            model_fields = [''Question'', ''Answer''],
            model_templates =
              [(''Card 1'', ''{{Question}}'', ''{{FrontSide}}<hr id='' @ [CHR 0x27] @ ''answer''
                  @ [CHR 0x27] @ ''>{{Answer}}'')]\<rparr>, w'))"

text \<open>
  \<open>format_ul\<close>. The walrus test succeeds when \<open>find\<close> returns an element that is
  truthy. Both loops only append to \<open>formatted\<close>.
\<close>

definition sub_note_line :: "string \<Rightarrow> element \<Rightarrow> string" where
  "sub_note_line formatted sub_note =
     formatted @ [CHR 0x09] @ ''- '' @ get_text (fst sub_note) @ ''\<newline>''"

definition top_level_line :: "string \<Rightarrow> element \<Rightarrow> string" where
  "top_level_line formatted top_level =
     (if \<not> truthy (fst top_level) then formatted
      else formatted @ get_text (fst top_level) @ ''\<newline>'')"

definition format_ul :: "node \<Rightarrow> string" where
  "format_ul ul =
     (if \<not> truthy ul then []
      else (case find ''li'' ul of
              Some top_level \<Rightarrow>
                (if truthy (fst top_level)
                 then foldl sub_note_line
                        (removesuffix (get_text (fst top_level)) ''\<newline>\<newline>\<newline>''
                           @ ''\<newline>'')
                        (find_next_siblings ''li'' top_level)
                 else foldl top_level_line [] (find_all ''li'' ul))
            | None \<Rightarrow> foldl top_level_line [] (find_all ''li'' ul)))"

definition create_subdeck :: "element \<Rightarrow> world \<Rightarrow> subdeck \<times> world" where
  "create_subdeck h2_el w =
     (let (subdeck_id, w1) = generate_identifier w;
          subdeck_name = get_text (fst h2_el);
          w2 = echo (''Subdeck: '' @ subdeck_name) w1
      in (SubDeck subdeck_id subdeck_name [] [], w2))"

definition create_note :: "element \<Rightarrow> world \<Rightarrow> (error + card) \<times> world" where
  "create_note h3_el w =
     (let (card_id, w1) = generate_identifier w;
          card_front = get_text (fst h3_el)
      in case find_next_sibling ''ul'' h3_el of
           None \<Rightarrow> (Inl ValueError, w1)
         | Some card_information \<Rightarrow>
             (let card_back = format_ul (reparse (fst card_information));
                  w2 = echo (''Card: '' @ card_front) w1
              in (Inr \<lparr>id' = card_id, front = card_front, back' = card_back, tags = []\<rparr>, w2)))"

text \<open>
  The loop of \<open>parse_notes\<close> over the siblings after the heading: strings are skipped,
  the next \<open>h2\<close> ends the loop, every \<open>h3\<close> becomes a note, and a failing
  \<open>create_note\<close> leaves the loop with its error.
\<close>

fun parse_notes_loop :: "node list \<Rightarrow> card list \<Rightarrow> world \<Rightarrow> (error + card list) \<times> world" where
  "parse_notes_loop [] notes w = (Inr notes, w)"
| "parse_notes_loop (Text s # rest) notes w = parse_notes_loop rest notes w"
| "parse_notes_loop (Tag n cs # rest) notes w =
     (if n = ''h2'' then (Inr notes, w)
      else if n \<noteq> ''h3'' then parse_notes_loop rest notes w
      else (case create_note (Tag n cs, rest) w of
              (Inl e, w') \<Rightarrow> (Inl e, w')
            | (Inr note, w') \<Rightarrow> parse_notes_loop rest (notes @ [note]) w'))"

definition parse_notes :: "element \<Rightarrow> world \<Rightarrow> (error + card list) \<times> world" where
  "parse_notes h2 w = parse_notes_loop (snd h2) [] w"

definition build_deck :: "node \<Rightarrow> world \<Rightarrow> (error + deck) \<times> world" where
  "build_deck soup w =
     (case find ''h1'' soup of
        None \<Rightarrow> (Inl ValueError, w)
      | Some h1 \<Rightarrow>
          (if \<not> is_tag (fst h1) then (Inl ValueError, w)
           else (let (i, w') = generate_identifier w
                 in (Inr \<lparr>id' = i, name = get_text (fst h1), sub_decks = []\<rparr>, w'))))"

text \<open>
  Both loops of \<open>build_subdecks\<close> have the same body and append to the same list. The
  first runs over the \<open>h2\<close> siblings that follow the root object \<open>self.soup\<close>, which
  as an element is the root node with no sibling after it; the second runs over every
  \<open>h2\<close> of the document. The assignment to \<open>subdeck.cards\<close> is the rebuilt
  \<open>SubDeck\<close> with the parsed notes as its cards.
\<close>

fun subdecks_loop :: "element list \<Rightarrow> subdeck list \<Rightarrow> world \<Rightarrow> (error + subdeck list) \<times> world" where
  "subdecks_loop [] subdecks w = (Inr subdecks, w)"
| "subdecks_loop (h2 # h2s) subdecks w =
     (let (subdeck, w1) = create_subdeck h2 w
      in case parse_notes h2 w1 of
           (Inl e, w2) \<Rightarrow> (Inl e, w2)
         | (Inr notes, w2) \<Rightarrow>
             subdecks_loop h2s
               (subdecks @ [SubDeck (subdeck_id subdeck) (subdeck_name subdeck)
                              (subdeck_sub_decks subdeck) notes]) w2)"

definition build_subdecks :: "node \<Rightarrow> world \<Rightarrow> (error + subdeck list) \<times> world" where
  "build_subdecks soup w =
     (case subdecks_loop (find_next_siblings ''h2'' (soup, [])) [] w of
        (Inl e, w1) \<Rightarrow> (Inl e, w1)
      | (Inr subdecks, w1) \<Rightarrow> subdecks_loop (find_all ''h2'' soup) subdecks w1)"

definition traverse :: "node \<Rightarrow> world \<Rightarrow> (error + deck) \<times> world" where
  "traverse soup w =
     (case build_deck soup w of
        (Inl e, w1) \<Rightarrow> (Inl e, w1)
      | (Inr d, w1) \<Rightarrow>
          (case build_subdecks soup (echo (''Deck: '' @ name d) w1) of
             (Inl e, w2) \<Rightarrow> (Inl e, w2)
           | (Inr subdecks, w2) \<Rightarrow>
               (let d' = foldl add_subdeck d subdecks
                in if \<not> path_exists w2 \<or> \<not> path_isdir w2
                   then (case mkdir w2 of
                           (Inl e, w3) \<Rightarrow> (Inl e, w3)
                         | (Inr u, w3) \<Rightarrow> (Inr d', w3))
                   else (Inr d', w2))))"

text \<open>
  \<open>export\<close>. The deck object made first is dropped. \<open>anki_subdeck\<close> is bound by the
  loop body only, so it is unbound (\<open>None\<close>) until the first sub-deck, and after the loop
  it holds what the last iteration built.
\<close>

definition make_note :: "anki_model \<Rightarrow> card \<Rightarrow> anki_note" where
  "make_note anki_model c =
     \<lparr>note_model = anki_model, note_fields = [front c, back' c], note_tags = tags c\<rparr>"

definition add_note :: "anki_deck \<Rightarrow> anki_note \<Rightarrow> anki_deck" where
  "add_note d n = d\<lparr>deck_notes := deck_notes d @ [n]\<rparr>"

definition export_subdeck :: "deck \<Rightarrow> anki_model \<Rightarrow> subdeck \<Rightarrow> anki_deck" where
  "export_subdeck d anki_model sd =
     foldl (\<lambda>anki_subdeck c. add_note anki_subdeck (make_note anki_model c))
       \<lparr>deck_id = subdeck_id sd, deck_name = name d @ ''::'' @ subdeck_name sd, deck_notes = []\<rparr>
       (cards sd)"

definition export :: "deck \<Rightarrow> world \<Rightarrow> (error + unit) \<times> world" where
  "export d w =
     (let (anki_model, w1) = simple_model w;
          anki_subdeck = foldl (\<lambda>bound sd. Some (export_subdeck d anki_model sd)) None (sub_decks d)
      in case anki_subdeck of
           None \<Rightarrow> (Inl UnboundLocalError, w1)
         | Some last_subdeck \<Rightarrow>
             write_to_file [last_subdeck] (''dist/'' @ file_name d @ ''.apkg'') w1)"

definition call :: "node \<Rightarrow> world \<Rightarrow> (error + unit) \<times> world" where
  "call soup w =
     (case traverse soup w of
        (Inl e, w1) \<Rightarrow> (Inl e, w1)
      | (Inr d, w1) \<Rightarrow> export d w1)"

text \<open>
  The command \<open>build\<close> reads the file, makes the builder and calls it; it catches
  nothing, so what the builder raises reaches the command line. Reading and parsing are
  outside the embedding; the command is given the parsed document.
\<close>

definition build :: "node \<Rightarrow> world \<Rightarrow> (error + unit) \<times> world" where
  "build soup w = call soup w"

section \<open>Notions used to state the properties\<close>

text \<open>The names of all tags in a subtree, the root of the subtree first.\<close>

fun tag_names :: "node \<Rightarrow> string list" where
  "tag_names (Text s) = []"
| "tag_names (Tag n cs) = n # concat (map tag_names cs)"

text \<open>Two worlds with the same file system: the same thing at \<open>dist\<close>, the same files.\<close>

definition same_fs :: "world \<Rightarrow> world \<Rightarrow> bool" where
  "same_fs w w' = (dist w' = dist w \<and> files w' = files w)"

text \<open>
  What a card, a sub-deck and a deck hold apart from their identifiers: the front, the
  back and the tags of a card, the name of a sub-deck with its cards in order, the name of
  a deck with its sub-decks in order.
\<close>

type_synonym card_view = "string \<times> string \<times> string list"

type_synonym subdeck_view = "string \<times> card_view list"

type_synonym deck_view = "string \<times> subdeck_view list"

definition card_content :: "card \<Rightarrow> card_view" where
  "card_content c = (front c, back' c, tags c)"

definition subdeck_content :: "subdeck \<Rightarrow> subdeck_view" where
  "subdeck_content sd = (subdeck_name sd, map card_content (cards sd))"

definition deck_content :: "deck \<Rightarrow> deck_view" where
  "deck_content d = (name d, map subdeck_content (sub_decks d))"

text \<open>
  The walk of the builder with the identifiers, the printed lines and the file system
  taken away. These functions are not part of the program; the lemmas below show that
  \<open>create_note\<close>, \<open>parse_notes\<close>, \<open>build_subdecks\<close> and \<open>traverse\<close> compute
  exactly this content, whatever the world.
\<close>

definition note_reading :: "element \<Rightarrow> error + card_view" where
  "note_reading h3_el =
     (case find_next_sibling ''ul'' h3_el of
        None \<Rightarrow> Inl ValueError
      | Some card_information \<Rightarrow>
          Inr (get_text (fst h3_el), format_ul (reparse (fst card_information)), []))"

fun notes_reading :: "node list \<Rightarrow> error + card_view list" where
  "notes_reading [] = Inr []"
| "notes_reading (Text s # rest) = notes_reading rest"
| "notes_reading (Tag n cs # rest) =
     (if n = ''h2'' then Inr []
      else if n \<noteq> ''h3'' then notes_reading rest
      else (case note_reading (Tag n cs, rest) of
              Inl e \<Rightarrow> Inl e
            | Inr c \<Rightarrow> (case notes_reading rest of Inl e \<Rightarrow> Inl e | Inr cs' \<Rightarrow> Inr (c # cs'))))"

fun subdecks_reading :: "element list \<Rightarrow> error + subdeck_view list" where
  "subdecks_reading [] = Inr []"
| "subdecks_reading (h2 # h2s) =
     (case notes_reading (snd h2) of
        Inl e \<Rightarrow> Inl e
      | Inr cs \<Rightarrow>
          (case subdecks_reading h2s of
             Inl e \<Rightarrow> Inl e
           | Inr sds \<Rightarrow> Inr ((get_text (fst h2), cs) # sds)))"

definition deck_reading :: "node \<Rightarrow> error + deck_view" where
  "deck_reading soup =
     (case find ''h1'' soup of
        None \<Rightarrow> Inl ValueError
      | Some h1 \<Rightarrow>
          (case subdecks_reading (find_all ''h2'' soup) of
             Inl e \<Rightarrow> Inl e
           | Inr sds \<Rightarrow> Inr (get_text (fst h1), sds)))"

text \<open>Sample inputs: a list item holding plain text, and a fresh world with no \<open>dist\<close>.\<close>

definition li :: "string \<Rightarrow> node" where
  "li s = Tag ''li'' [Text s]"

definition empty_world :: world where
  "empty_world = \<lparr>entropy = (\<lambda>i. int i), stdout = [], dist = Missing, files = Map.empty\<rparr>"

text \<open>
  What a written package holds apart from the identifiers and the note model: for each of
  its decks the name and, for each note, the fields and the tags.
\<close>

type_synonym package_view = "(string \<times> (string list \<times> string list) list) list"

definition package_content :: "package \<Rightarrow> package_view" where
  "package_content p =
     map (\<lambda>dk. (deck_name dk, map (\<lambda>n. (note_fields n, note_tags n)) (deck_notes dk))) p"

text \<open>
  \<open>export\<close> and the whole run, read the same way: whether they raise depends on the
  content of the deck and on what is at \<open>dist\<close>, and what they write is one file, named
  after the deck, with the content given here. As above, these functions are not part of
  the program; lemmas relate them to \<open>export\<close> and to the builder's call.
\<close>

definition note_view :: "card_view \<Rightarrow> string list \<times> string list" where
  "note_view c = ([fst c, fst (snd c)], snd (snd c))"

definition export_reading :: "deck_view \<Rightarrow> path_kind \<Rightarrow> error + unit" where
  "export_reading d at_dist =
     (if snd d = [] then Inl UnboundLocalError
      else (case at_dist of
              Missing \<Rightarrow> Inl FileNotFoundError
            | RegularFile \<Rightarrow> Inl NotADirectoryError
            | Directory \<Rightarrow> Inr ()))"

definition written_reading :: "deck_view \<Rightarrow> string \<times> package_view" where
  "written_reading d =
     (''dist/'' @ lower (replace '' '' ''-'' (fst d)) @ ''.apkg'',
      [(fst d @ ''::'' @ fst (last (snd d)), map note_view (snd (last (snd d))))])"

definition call_reading :: "node \<Rightarrow> path_kind \<Rightarrow> error + unit" where
  "call_reading soup at_dist =
     (case deck_reading soup of
        Inl e \<Rightarrow> Inl e
      | Inr d \<Rightarrow> if at_dist = RegularFile then Inl FileExistsError else export_reading d Directory)"

text \<open>
  Outline documents, as the markdown library renders them: the level-1 heading, then for
  each sub-deck its level-2 heading and, for each of its cards, a level-3 heading followed
  by a list of items; a newline string stands between any two blocks. A card is given by
  its question and the texts of its items, a sub-deck by its name and its cards.
\<close>

definition heading :: "string \<Rightarrow> string \<Rightarrow> node" where
  "heading level s = Tag level [Text s]"

definition sep :: node where
  "sep = Text ''\<newline>''"

definition ul_of :: "string list \<Rightarrow> node" where
  "ul_of items = Tag ''ul'' (sep # concat (map (\<lambda>i. [li i, sep]) items))"

definition card_blocks :: "string \<times> string list \<Rightarrow> node list" where
  "card_blocks c = [heading ''h3'' (fst c), sep, ul_of (snd c), sep]"

definition subdeck_blocks :: "string \<times> (string \<times> string list) list \<Rightarrow> node list" where
  "subdeck_blocks sd = heading ''h2'' (fst sd) # sep # concat (map card_blocks (snd sd))"

definition outline :: "string \<Rightarrow> (string \<times> (string \<times> string list) list) list \<Rightarrow> node" where
  "outline title sds = BeautifulSoup (heading ''h1'' title # sep # concat (map subdeck_blocks sds))"

text \<open>The content expected of a card and of a sub-deck of an outline document.\<close>

definition card_view_of :: "string \<times> string list \<Rightarrow> card_view" where
  "card_view_of c = (fst c, format_ul (reparse (ul_of (snd c))), [])"

definition subdeck_view_of :: "string \<times> (string \<times> string list) list \<Rightarrow> subdeck_view" where
  "subdeck_view_of sd = (fst sd, map card_view_of (snd sd))"

text \<open>The level-2 headings of an outline document, each with the siblings that follow it.\<close>

fun h2_elements :: "(string \<times> (string \<times> string list) list) list \<Rightarrow> element list" where
  "h2_elements [] = []"
| "h2_elements (sd # sds) =
     (heading ''h2'' (fst sd), sep # concat (map card_blocks (snd sd)) @ concat (map subdeck_blocks sds))
       # h2_elements sds"

text \<open>
  More sample inputs: a deck with two sub-decks of one card each; the sub-decks of an
  outline with two cards each; a document whose only card has no list; a document whose
  level-3 heading comes before the only level-2 heading; and a document without a level-2
  heading.
\<close>

definition two_subdecks :: deck where
  "two_subdecks =
     \<lparr>id' = 1, name = ''D'',
      sub_decks =
        [SubDeck 2 ''S1'' [] [\<lparr>id' = 3, front = ''Q1'', back' = ''a\<newline>'', tags = []\<rparr>],
         SubDeck 4 ''S2'' [] [\<lparr>id' = 5, front = ''Q2'', back' = ''b\<newline>'', tags = []\<rparr>]]\<rparr>"

definition sample_subdecks :: "(string \<times> (string \<times> string list) list) list" where
  "sample_subdecks =
     [(''S1'', [(''Q1'', [''a'']), (''Q2'', [''b'', ''c''])]),
      (''S2'', [(''Q3'', []), (''Q4'', [''d''])])]"

definition card_without_list :: node where
  "card_without_list =
     BeautifulSoup [heading ''h1'' ''D'', heading ''h2'' ''S'', heading ''h3'' ''Q'', Tag ''p'' [Text ''x'']]"

definition stray_heading :: node where
  "stray_heading = BeautifulSoup [heading ''h1'' ''D'', heading ''h3'' ''Q'', heading ''h2'' ''S'']"

definition no_subdecks :: node where
  "no_subdecks = BeautifulSoup [heading ''h1'' ''D'', sep, Tag ''p'' [Text ''x'']]"

section \<open>Facts about the string functions\<close>

lemma replace_space: "replace '' '' ''-'' s = map (\<lambda>c. if c = CHR '' '' then CHR ''-'' else c) s"
  by (induction s) auto

lemma lower_char_hyphen: "lower_char CHR ''-'' = CHR ''-''"
  by (simp add: lower_char_def)

lemma lower_char_not_space:
  assumes "c \<noteq> CHR '' ''"
  shows "lower_char c \<noteq> CHR '' ''"
proof
  assume eq: "lower_char c = CHR '' ''"
  define n where "n = (of_char c :: nat)"
  show False
  proof (cases "(65 \<le> n \<and> n \<le> 90) \<or> (192 \<le> n \<and> n \<le> 222 \<and> n \<noteq> 215)")
    case True
    then have "char_of (n + 32) = CHR '' ''"
      using eq by (simp add: lower_char_def n_def Let_def)
    then have "(of_char (char_of (n + 32) :: char) :: nat) = of_char CHR '' ''"
      by simp
    then have "(n + 32) mod 256 = 32"
      by simp
    with True show False by auto
  next
    case False
    then have "lower_char c = c"
      unfolding n_def by (auto simp add: lower_char_def Let_def)
    with eq assms show False by simp
  qed
qed

lemma lowered_not_space:
  "CHR '' '' \<noteq> lower_char (if c = CHR '' '' then CHR ''-'' else c)"
proof -
  have "(if c = CHR '' '' then CHR ''-'' else c) \<noteq> CHR '' ''"
    by simp
  then have "lower_char (if c = CHR '' '' then CHR ''-'' else c) \<noteq> CHR '' ''"
    by (rule lower_char_not_space)
  then show ?thesis
    by (rule not_sym)
qed

lemma no_space_in_file_name: "CHR '' '' \<notin> set (file_name d)"
proof -
  have "CHR '' '' \<notin> set (map (\<lambda>c. lower_char (if c = CHR '' '' then CHR ''-'' else c)) s)" for s
    by (induction s) (simp_all add: lowered_not_space)
  then show ?thesis
    by (simp add: file_name_def lower_def replace_space comp_def)
qed

section \<open>What the walk leaves of the file system\<close>

lemma same_fs_refl: "same_fs w w"
  by (simp add: same_fs_def)

lemma same_fs_trans: "same_fs w w' \<Longrightarrow> same_fs w' w'' \<Longrightarrow> same_fs w w''"
  by (simp add: same_fs_def)

lemma same_fs_generate_identifier: "same_fs w (snd (generate_identifier w))"
  by (simp add: same_fs_def generate_identifier_def randbelow_def)

lemma same_fs_echo: "same_fs w (echo line w)"
  by (simp add: same_fs_def echo_def)

lemma same_fs_create_note: "same_fs w (snd (create_note el w))"
  by (auto simp: create_note_def same_fs_def generate_identifier_def randbelow_def echo_def Let_def
      split: option.splits)

lemma same_fs_create_subdeck: "same_fs w (snd (create_subdeck el w))"
  by (simp add: create_subdeck_def same_fs_def generate_identifier_def randbelow_def echo_def Let_def)

lemma same_fs_parse_notes_loop: "same_fs w (snd (parse_notes_loop rest ns w))"
proof (induction rest ns w rule: parse_notes_loop.induct)
  case (1 ns w)
  show ?case by (simp add: same_fs_refl)
next
  case (2 s rest ns w)
  then show ?case by simp
next
  case (3 n cs rest ns w)
  show ?case
  proof (cases "create_note (Tag n cs, rest) w")
    case (Pair r w')
    have step: "same_fs w w'"
      using same_fs_create_note [of w "(Tag n cs, rest)"] Pair by simp
    show ?thesis
    proof (cases r)
      case (Inl e)
      with Pair step 3 show ?thesis by (auto simp: same_fs_refl)
    next
      case (Inr c)
      with Pair step 3 show ?thesis by (auto simp: same_fs_refl intro: same_fs_trans)
    qed
  qed
qed

lemma same_fs_subdecks_loop: "same_fs w (snd (subdecks_loop h2s subdecks w))"
proof (induction h2s arbitrary: subdecks w)
  case Nil
  show ?case by (simp add: same_fs_refl)
next
  case (Cons h2 h2s)
  obtain sd w1 where sd: "create_subdeck h2 w = (sd, w1)"
    by (cases "create_subdeck h2 w")
  obtain r w2 where r: "parse_notes h2 w1 = (r, w2)"
    by (cases "parse_notes h2 w1")
  have "same_fs w w1"
    using same_fs_create_subdeck [of w h2] sd by simp
  moreover have "same_fs w1 w2"
    using same_fs_parse_notes_loop [of w1 "snd h2" "[]"] r by (simp add: parse_notes_def)
  ultimately have w2: "same_fs w w2"
    by (rule same_fs_trans)
  show ?case
  proof (cases r)
    case (Inl e)
    with sd r w2 show ?thesis by simp
  next
    case (Inr ns)
    with sd r w2 Cons.IH show ?thesis by (auto intro: same_fs_trans)
  qed
qed

lemma root_has_no_siblings: "find_next_siblings nm (soup, []) = []"
  by (simp add: find_next_siblings_def)

lemma build_subdecks_second_loop: "build_subdecks soup w = subdecks_loop (find_all ''h2'' soup) [] w"
  by (simp add: build_subdecks_def root_has_no_siblings)

lemma same_fs_build_subdecks: "same_fs w (snd (build_subdecks soup w))"
  by (simp add: build_subdecks_second_loop same_fs_subdecks_loop)

lemma same_fs_build_deck: "same_fs w (snd (build_deck soup w))"
  by (auto simp: build_deck_def same_fs_def generate_identifier_def randbelow_def Let_def
      split: option.splits)

section \<open>The content the walk computes\<close>

lemma create_note_reading: "map_sum id card_content (fst (create_note el w)) = note_reading el"
  by (simp add: create_note_def note_reading_def card_content_def Let_def
      split: prod.splits option.splits)

lemma parse_notes_loop_reading:
  "map_sum id (map card_content) (fst (parse_notes_loop rest ns w)) =
   map_sum id (\<lambda>cs. map card_content ns @ cs) (notes_reading rest)"
proof (induction rest ns w rule: parse_notes_loop.induct)
  case (1 ns w)
  show ?case by simp
next
  case (2 s rest ns w)
  then show ?case by simp
next
  case (3 n cs rest ns w)
  show ?case
  proof (cases "create_note (Tag n cs, rest) w")
    case (Pair r w')
    have r: "map_sum id card_content r = note_reading (Tag n cs, rest)"
      using create_note_reading [of "(Tag n cs, rest)" w] Pair by simp
    show ?thesis
    proof (cases r)
      case (Inl e)
      with Pair r 3 show ?thesis by (cases "note_reading (Tag n cs, rest)") auto
    next
      case (Inr c)
      with r have "note_reading (Tag n cs, rest) = Inr (card_content c)"
        by simp
      with Pair Inr 3 show ?thesis
        by (cases "notes_reading rest") auto
    qed
  qed
qed

lemma parse_notes_reading:
  "map_sum id (map card_content) (fst (parse_notes h2 w)) = notes_reading (snd h2)"
  using parse_notes_loop_reading [of "snd h2" "[]" w]
  by (cases "notes_reading (snd h2)") (simp_all add: parse_notes_def)

lemma create_subdeck_name: "subdeck_name (fst (create_subdeck h2 w)) = get_text (fst h2)"
  by (simp add: create_subdeck_def Let_def split: prod.splits)

lemma subdecks_loop_reading:
  "map_sum id (map subdeck_content) (fst (subdecks_loop h2s sds w)) =
   map_sum id (\<lambda>rs. map subdeck_content sds @ rs) (subdecks_reading h2s)"
proof (induction h2s arbitrary: sds w)
  case Nil
  show ?case by simp
next
  case (Cons h2 h2s)
  obtain sd w1 where sd: "create_subdeck h2 w = (sd, w1)"
    by (cases "create_subdeck h2 w")
  obtain r w2 where r: "parse_notes h2 w1 = (r, w2)"
    by (cases "parse_notes h2 w1")
  have nm: "subdeck_name sd = get_text (fst h2)"
    using create_subdeck_name [of h2 w] sd by simp
  have rd: "map_sum id (map card_content) r = notes_reading (snd h2)"
    using parse_notes_reading [of h2 w1] r by simp
  show ?case
  proof (cases r)
    case (Inl e)
    with rd have "notes_reading (snd h2) = Inl e" by simp
    with sd r Inl show ?thesis by simp
  next
    case (Inr cs)
    with rd have "notes_reading (snd h2) = Inr (map card_content cs)" by simp
    with sd r Inr nm Cons.IH [of "sds @ [SubDeck (subdeck_id sd) (subdeck_name sd) (subdeck_sub_decks sd) cs]" w2]
    show ?thesis
      by (cases "subdecks_reading h2s") (simp_all add: subdeck_content_def)
  qed
qed

lemma build_subdecks_reading:
  "map_sum id (map subdeck_content) (fst (build_subdecks soup w)) =
   subdecks_reading (find_all ''h2'' soup)"
  using subdecks_loop_reading [of "find_all ''h2'' soup" "[]" w]
  by (cases "subdecks_reading (find_all ''h2'' soup)") (simp_all add: build_subdecks_second_loop)

lemma find_is_tag: "find nm soup = Some el \<Longrightarrow> is_tag (fst el)"
proof -
  assume "find nm soup = Some el"
  then have "el \<in> set (find_all nm soup)"
    by (auto simp: find_def split: list.splits)
  then have "named nm (fst el)"
    by (simp add: find_all_def)
  then show ?thesis by (cases "fst el") simp_all
qed

lemma build_deck_None: "find ''h1'' soup = None \<Longrightarrow> build_deck soup w = (Inl ValueError, w)"
  by (simp add: build_deck_def)

lemma build_deck_Some:
  "find ''h1'' soup = Some h1 \<Longrightarrow>
   build_deck soup w =
     (Inr \<lparr>id' = fst (generate_identifier w), name = get_text (fst h1), sub_decks = []\<rparr>,
      snd (generate_identifier w))"
  by (simp add: build_deck_def find_is_tag Let_def split: prod.splits)

lemma foldl_add_subdeck:
  "foldl add_subdeck d sds = d\<lparr>sub_decks := sub_decks d @ sds\<rparr>"
  by (induction sds arbitrary: d) (simp_all add: add_subdeck_def)

lemma traverse_reading:
  "map_sum id deck_content (fst (traverse soup w)) =
   (case deck_reading soup of
      Inl e \<Rightarrow> Inl e
    | Inr d \<Rightarrow> if dist w = RegularFile then Inl FileExistsError else Inr d)"
proof (cases "find ''h1'' soup")
  case None
  then show ?thesis by (simp add: traverse_def path_exists_def path_isdir_def build_deck_None deck_reading_def)
next
  case (Some h1)
  define w1 where "w1 = echo (''Deck: '' @ get_text (fst h1)) (snd (generate_identifier w))"
  obtain r w2 where r: "build_subdecks soup w1 = (r, w2)"
    by (cases "build_subdecks soup w1")
  have rd: "map_sum id (map subdeck_content) r = subdecks_reading (find_all ''h2'' soup)"
    using build_subdecks_reading [of soup w1] r by simp
  have "same_fs w w1"
    unfolding w1_def by (rule same_fs_trans [OF same_fs_generate_identifier same_fs_echo])
  moreover have "same_fs w1 w2"
    using same_fs_build_subdecks [of w1 soup] r by simp
  ultimately have fs: "dist w2 = dist w"
    by (simp add: same_fs_def)
  show ?thesis
  proof (cases r)
    case (Inl e)
    with rd have "subdecks_reading (find_all ''h2'' soup) = Inl e" by simp
    with Some r Inl show ?thesis
      by (simp add: traverse_def path_exists_def path_isdir_def build_deck_Some deck_reading_def w1_def)
  next
    case (Inr sds)
    with rd have "subdecks_reading (find_all ''h2'' soup) = Inr (map subdeck_content sds)" by simp
    with Some r Inr fs show ?thesis
      by (cases "dist w")
        (simp_all add: traverse_def path_exists_def path_isdir_def build_deck_Some deck_reading_def w1_def mkdir_def
          foldl_add_subdeck deck_content_def)
  qed
qed

section \<open>Searching, traversing and exporting\<close>

lemma named_descendants_iff:
  "(filter (\<lambda>el. named nm (fst el)) (descendants cs) = []) = (nm \<notin> set (concat (map tag_names cs)))"
  by (induction cs rule: descendants.induct) auto

lemma find_None_iff: "(find nm soup = None) = (nm \<notin> set (concat (map tag_names (contents soup))))"
proof -
  have "(find nm soup = None) = (find_all nm soup = [])"
    by (cases "find_all nm soup") (simp_all add: find_def)
  then show ?thesis
    by (simp only: find_all_def named_descendants_iff)
qed

lemma traverse_files: "files (snd (traverse soup w)) = files w"
proof (cases "find ''h1'' soup")
  case None
  then show ?thesis by (simp add: traverse_def path_exists_def path_isdir_def build_deck_None)
next
  case (Some h1)
  define w1 where "w1 = echo (''Deck: '' @ get_text (fst h1)) (snd (generate_identifier w))"
  obtain r w2 where r: "build_subdecks soup w1 = (r, w2)"
    by (cases "build_subdecks soup w1")
  have "same_fs w w1"
    unfolding w1_def by (rule same_fs_trans [OF same_fs_generate_identifier same_fs_echo])
  moreover have "same_fs w1 w2"
    using same_fs_build_subdecks [of w1 soup] r by simp
  ultimately have fs: "files w2 = files w"
    by (simp add: same_fs_def)
  from Some r fs show ?thesis
    by (cases r; cases "dist w2")
      (simp_all add: traverse_def path_exists_def path_isdir_def build_deck_Some w1_def mkdir_def Let_def)
qed

lemma traverse_dist:
  "dist (snd (traverse soup w)) = (case fst (traverse soup w) of Inl e \<Rightarrow> dist w | Inr d \<Rightarrow> Directory)"
proof (cases "find ''h1'' soup")
  case None
  then show ?thesis by (simp add: traverse_def path_exists_def path_isdir_def build_deck_None)
next
  case (Some h1)
  define w1 where "w1 = echo (''Deck: '' @ get_text (fst h1)) (snd (generate_identifier w))"
  obtain r w2 where r: "build_subdecks soup w1 = (r, w2)"
    by (cases "build_subdecks soup w1")
  have "same_fs w w1"
    unfolding w1_def by (rule same_fs_trans [OF same_fs_generate_identifier same_fs_echo])
  moreover have "same_fs w1 w2"
    using same_fs_build_subdecks [of w1 soup] r by simp
  ultimately have fs: "dist w2 = dist w"
    by (simp add: same_fs_def)
  from Some r fs show ?thesis
    by (cases r; cases "dist w")
      (simp_all add: traverse_def path_exists_def path_isdir_def build_deck_Some w1_def mkdir_def Let_def)
qed

lemma same_fs_simple_model: "same_fs w (snd (simple_model w))"
  by (simp add: simple_model_def same_fs_def generate_identifier_def randbelow_def Let_def)

lemma foldl_last_bound:
  "foldl (\<lambda>bound sd. Some (f sd)) b (sds @ [sd]) = Some (f sd)"
  by simp

lemma export_nonempty:
  "sub_decks d = sds @ [sd] \<Longrightarrow>
   export d w =
     write_to_file [export_subdeck d (fst (simple_model w)) sd]
       (''dist/'' @ file_name d @ ''.apkg'') (snd (simple_model w))"
  by (simp add: export_def split: prod.splits)

lemma export_empty:
  "sub_decks d = [] \<Longrightarrow> export d w = (Inl UnboundLocalError, snd (simple_model w))"
  by (simp add: export_def split: prod.splits)


section \<open>Facts about formatting and creating notes\<close>

lemma find_in_reparse: "(find nm (reparse u) = None) = (nm \<notin> set (tag_names u))"
  by (simp add: find_None_iff reparse_def BeautifulSoup_def)

lemma foldl_sub_note_line_nonempty: "acc \<noteq> [] \<Longrightarrow> foldl sub_note_line acc els \<noteq> []"
  by (induction els arbitrary: acc) (simp_all add: sub_note_line_def)

lemma format_ul_nonempty:
  assumes "find ''li'' ul = Some top_level" and "is_tag ul"
  shows "format_ul ul \<noteq> []"
proof -
  have tl: "truthy (fst top_level)"
    using find_is_tag [OF assms(1)] by (cases "fst top_level") simp_all
  have ul: "truthy ul"
    using assms(2) by (cases ul) simp_all
  show ?thesis
    using assms(1) tl ul by (simp add: format_ul_def foldl_sub_note_line_nonempty)
qed

lemma format_ul_no_item:
  assumes "find ''li'' ul = None"
  shows "format_ul ul = []"
proof -
  from assms have "find_all ''li'' ul = []"
    by (cases "find_all ''li'' ul") (simp_all add: find_def)
  with assms show ?thesis
    by (simp add: format_ul_def)
qed

lemma format_ul_reparse_empty_iff:
  "(format_ul (reparse u) = []) = (''li'' \<notin> set (tag_names u))"
proof (cases "find ''li'' (reparse u)")
  case None
  then show ?thesis
    using format_ul_no_item [OF None] find_in_reparse [of "''li''" u] by simp
next
  case (Some top_level)
  have "is_tag (reparse u)"
    by (simp add: reparse_def BeautifulSoup_def)
  with Some have "format_ul (reparse u) \<noteq> []"
    by (rule format_ul_nonempty)
  moreover from Some have "''li'' \<in> set (tag_names u)"
    using find_in_reparse [of "''li''" u] by simp
  ultimately show ?thesis by simp
qed

lemma create_note_None:
  "find_next_sibling ''ul'' h3 = None \<Longrightarrow> fst (create_note h3 w) = Inl ValueError"
  by (simp add: create_note_def Let_def split: prod.splits)

lemma create_note_Some:
  "find_next_sibling ''ul'' h3 = Some u \<Longrightarrow>
   fst (create_note h3 w) =
     Inr \<lparr>id' = fst (generate_identifier w), front = get_text (fst h3),
          back' = format_ul (reparse (fst u)), tags = []\<rparr>"
  by (simp add: create_note_def Let_def split: prod.splits)


section \<open>When the walk fails\<close>

lemma map_fst_next_siblings: "map fst (next_siblings xs) = xs"
  by (induction xs) simp_all

lemma find_next_sibling_absent:
  assumes "\<forall>n\<in>set post. \<not> named nm n"
  shows "find_next_sibling nm (x, post) = None"
proof -
  have "filter (\<lambda>s. named nm (fst s)) (next_siblings post) = []"
  proof (rule ccontr)
    assume "filter (\<lambda>s. named nm (fst s)) (next_siblings post) \<noteq> []"
    then obtain s where s: "s \<in> set (next_siblings post)" and nm: "named nm (fst s)"
      by (auto simp: filter_empty_conv)
    from s have "fst s \<in> set (map fst (next_siblings post))"
      by simp
    then have "fst s \<in> set post"
      by (simp only: map_fst_next_siblings)
    with assms nm show False by blast
  qed
  then show ?thesis
    by (simp add: find_next_sibling_def find_next_siblings_def)
qed

lemma note_reading_error: "note_reading el = Inl e \<Longrightarrow> e = ValueError"
  by (auto simp: note_reading_def split: option.splits)

lemma notes_reading_error: "notes_reading rest = Inl e \<Longrightarrow> e = ValueError"
proof (induction rest rule: notes_reading.induct)
  case 1
  then show ?case by simp
next
  case (2 s rest)
  then show ?case by simp
next
  case (3 n cs rest)
  then show ?case
    by (auto split: if_splits sum.splits dest: note_reading_error)
qed

lemma subdecks_reading_error: "subdecks_reading els = Inl e \<Longrightarrow> e = ValueError"
proof (induction els)
  case Nil
  then show ?case by simp
next
  case (Cons h2 h2s)
  then show ?case
    by (auto split: sum.splits dest: notes_reading_error)
qed

lemma notes_reading_fails:
  assumes "\<forall>n\<in>set pre. \<not> named ''h2'' n"
    and "note_reading (Tag ''h3'' cs, post) = Inl ValueError"
  shows "notes_reading (pre @ Tag ''h3'' cs # post) = Inl ValueError"
  using assms(1)
proof (induction pre)
  case Nil
  with assms(2) show ?case by simp
next
  case (Cons a pre)
  then have ih: "notes_reading (pre @ Tag ''h3'' cs # post) = Inl ValueError"
    by simp
  show ?case
  proof (cases a)
    case (Text s)
    with ih show ?thesis by simp
  next
    case (Tag n cs')
    with Cons.prems have "n \<noteq> ''h2''"
      by auto
    with Tag ih show ?thesis
      by (cases "note_reading (Tag n cs', pre @ Tag ''h3'' cs # post)")
        (auto dest: note_reading_error)
  qed
qed

lemma subdecks_reading_fails:
  assumes "el \<in> set els" and "notes_reading (snd el) = Inl ValueError"
  shows "subdecks_reading els = Inl ValueError"
  using assms(1)
proof (induction els)
  case Nil
  then show ?case by simp
next
  case (Cons h2 h2s)
  show ?case
  proof (cases "el = h2")
    case True
    with assms(2) show ?thesis by simp
  next
    case False
    with Cons have ih: "subdecks_reading h2s = Inl ValueError"
      by simp
    show ?thesis
    proof (cases "notes_reading (snd h2)")
      case (Inl e)
      then show ?thesis
        using notes_reading_error [OF Inl] by simp
    next
      case (Inr cs)
      with ih show ?thesis by simp
    qed
  qed
qed

lemma deck_reading_fails:
  assumes "el \<in> set (find_all ''h2'' soup)" and "notes_reading (snd el) = Inl ValueError"
  shows "deck_reading soup = Inl ValueError"
  using subdecks_reading_fails [OF assms]
  by (simp add: deck_reading_def split: option.splits)

lemma traverse_fails:
  assumes "deck_reading soup = Inl e"
  shows "fst (traverse soup w) = Inl e"
proof -
  have "map_sum id deck_content (fst (traverse soup w)) = Inl e"
    using traverse_reading [of soup w] assms by simp
  then show ?thesis
    by (cases "fst (traverse soup w)") simp_all
qed

lemma call_after_failed_traverse:
  assumes "fst (traverse soup w) = Inl e"
  shows "call soup w = (Inl e, snd (traverse soup w))"
  using assms by (cases "traverse soup w") (simp add: call_def)


section \<open>What export and the whole run do\<close>

lemma foldl_add_note:
  "foldl (\<lambda>anki_subdeck c. add_note anki_subdeck (make_note m c)) dk cs =
   dk\<lparr>deck_notes := deck_notes dk @ map (make_note m) cs\<rparr>"
  by (induction cs arbitrary: dk) (simp_all add: add_note_def)

lemma export_subdeck_eq:
  "export_subdeck d m sd =
   \<lparr>deck_id = subdeck_id sd, deck_name = name d @ ''::'' @ subdeck_name sd,
    deck_notes = map (make_note m) (cards sd)\<rparr>"
  by (simp add: export_subdeck_def foldl_add_note)

lemma package_content_export_subdeck:
  "package_content [export_subdeck d m sd] =
   [(name d @ ''::'' @ subdeck_name sd, map (note_view \<circ> card_content) (cards sd))]"
  by (simp add: package_content_def export_subdeck_eq make_note_def note_view_def card_content_def
      comp_def)

lemma export_result: "fst (export d w) = export_reading (deck_content d) (dist w)"
proof (cases "sub_decks d" rule: rev_cases)
  case Nil
  then show ?thesis
    by (simp add: export_empty export_reading_def deck_content_def)
next
  case (snoc sds sd)
  have "dist (snd (simple_model w)) = dist w"
    using same_fs_simple_model [of w] by (simp add: same_fs_def)
  with snoc show ?thesis
    by (cases "dist w")
      (simp_all add: export_nonempty export_reading_def deck_content_def write_to_file_def)
qed

lemma export_written:
  "map_option package_content (files (snd (export d w)) p) =
   (if export_reading (deck_content d) (dist w) = Inr () \<and> p = fst (written_reading (deck_content d))
    then Some (snd (written_reading (deck_content d)))
    else map_option package_content (files w p))"
proof (cases "sub_decks d" rule: rev_cases)
  case Nil
  have "files (snd (simple_model w)) = files w"
    using same_fs_simple_model [of w] by (simp add: same_fs_def)
  with Nil show ?thesis
    by (simp add: export_empty export_reading_def deck_content_def)
next
  case (snoc sds sd)
  have fs: "dist (snd (simple_model w)) = dist w" "files (snd (simple_model w)) = files w"
    using same_fs_simple_model [of w] by (simp_all add: same_fs_def)
  have last_view: "last (map subdeck_content sds @ [subdeck_content sd]) = subdeck_content sd"
    by simp
  from snoc fs show ?thesis
    by (cases "dist w")
      (simp_all add: export_nonempty export_reading_def written_reading_def deck_content_def
        write_to_file_def package_content_export_subdeck subdeck_content_def file_name_def)
qed

lemma export_dist: "dist (snd (export d w)) = dist w"
proof (cases "sub_decks d" rule: rev_cases)
  case Nil
  then show ?thesis
    using same_fs_simple_model [of w] by (simp add: export_empty same_fs_def)
next
  case (snoc sds sd)
  have "dist (snd (simple_model w)) = dist w"
    using same_fs_simple_model [of w] by (simp add: same_fs_def)
  with snoc show ?thesis
    by (cases "dist w") (simp_all add: export_nonempty write_to_file_def)
qed

lemma call_result: "fst (call soup w) = call_reading soup (dist w)"
proof (cases "traverse soup w")
  case (Pair r w1)
  have rd: "map_sum id deck_content r =
      (case deck_reading soup of
         Inl e \<Rightarrow> Inl e
       | Inr d \<Rightarrow> if dist w = RegularFile then Inl FileExistsError else Inr d)"
    using traverse_reading [of soup w] Pair by simp
  have ds: "dist w1 = (case r of Inl e \<Rightarrow> dist w | Inr d \<Rightarrow> Directory)"
    using traverse_dist [of soup w] Pair by simp
  show ?thesis
  proof (cases r)
    case (Inl e)
    with rd Pair show ?thesis
      by (cases "deck_reading soup") (auto simp: call_def call_reading_def split: if_splits)
  next
    case (Inr d)
    with rd ds Pair show ?thesis
      by (cases "deck_reading soup")
        (auto simp: call_def call_reading_def export_result split: if_splits)
  qed
qed

lemma call_files:
  "map_option package_content (files (snd (call soup w)) p) =
   (case deck_reading soup of
      Inl e \<Rightarrow> map_option package_content (files w p)
    | Inr d \<Rightarrow>
        if call_reading soup (dist w) = Inr () \<and> p = fst (written_reading d)
        then Some (snd (written_reading d))
        else map_option package_content (files w p))"
proof (cases "traverse soup w")
  case (Pair r w1)
  have rd: "map_sum id deck_content r =
      (case deck_reading soup of
         Inl e \<Rightarrow> Inl e
       | Inr d \<Rightarrow> if dist w = RegularFile then Inl FileExistsError else Inr d)"
    using traverse_reading [of soup w] Pair by simp
  have ds: "dist w1 = (case r of Inl e \<Rightarrow> dist w | Inr d \<Rightarrow> Directory)"
    using traverse_dist [of soup w] Pair by simp
  have fs: "files w1 = files w"
    using traverse_files [of soup w] Pair by simp
  show ?thesis
  proof (cases r)
    case (Inl e)
    with rd Pair fs show ?thesis
      by (cases "deck_reading soup") (auto simp: call_def call_reading_def split: if_splits)
  next
    case (Inr d)
    with rd ds Pair fs show ?thesis
      by (cases "deck_reading soup")
        (auto simp: call_def call_reading_def export_written split: if_splits)
  qed
qed

lemma call_dist_regular: "(dist (snd (call soup w)) = RegularFile) = (dist w = RegularFile)"
proof (cases "traverse soup w")
  case (Pair r w1)
  have rd: "map_sum id deck_content r =
      (case deck_reading soup of
         Inl e \<Rightarrow> Inl e
       | Inr d \<Rightarrow> if dist w = RegularFile then Inl FileExistsError else Inr d)"
    using traverse_reading [of soup w] Pair by simp
  have ds: "dist w1 = (case r of Inl e \<Rightarrow> dist w | Inr d \<Rightarrow> Directory)"
    using traverse_dist [of soup w] Pair by simp
  show ?thesis
  proof (cases r)
    case (Inl e)
    with ds Pair show ?thesis
      by (simp add: call_def)
  next
    case (Inr d)
    with rd ds Pair show ?thesis
      by (cases "deck_reading soup") (auto simp: call_def export_dist split: if_splits)
  qed
qed

lemma call_after_traverse:
  assumes "fst (traverse soup w) = Inr d"
  shows "call soup w = export d (snd (traverse soup w))"
  using assms by (cases "traverse soup w") (simp add: call_def)

lemma traverse_without_h2:
  assumes "''h1'' \<in> set (concat (map tag_names (contents soup)))"
    and "''h2'' \<notin> set (concat (map tag_names (contents soup)))"
    and "dist w \<noteq> RegularFile"
  shows "\<exists>d. fst (traverse soup w) = Inr d \<and> sub_decks d = []"
proof -
  from assms(1) obtain h1 where h1: "find ''h1'' soup = Some h1"
    using find_None_iff [of "''h1''" soup] by (cases "find ''h1'' soup") auto
  from assms(2) have "find_all ''h2'' soup = []"
    by (simp add: find_all_def named_descendants_iff)
  with h1 have "deck_reading soup = Inr (get_text (fst h1), [])"
    by (simp add: deck_reading_def)
  with assms(3) have "map_sum id deck_content (fst (traverse soup w)) = Inr (get_text (fst h1), [])"
    using traverse_reading [of soup w] by simp
  then obtain d where "fst (traverse soup w) = Inr d" and "deck_content d = (get_text (fst h1), [])"
    by (cases "fst (traverse soup w)") auto
  then show ?thesis
    by (simp add: deck_content_def)
qed

section \<open>Outline documents\<close>

lemma filter_descendants_append:
  assumes "nm \<notin> set (concat (map tag_names xs))"
  shows "filter (\<lambda>el. named nm (fst el)) (descendants (xs @ ys)) =
         filter (\<lambda>el. named nm (fst el)) (descendants ys)"
  using assms
proof (induction xs)
  case Nil
  show ?case by simp
next
  case (Cons a xs)
  show ?case
  proof (cases a)
    case (Text s)
    with Cons show ?thesis by simp
  next
    case (Tag n cs)
    with Cons.prems have "nm \<notin> set (concat (map tag_names cs))"
      by simp
    then have "filter (\<lambda>el. named nm (fst el)) (descendants cs) = []"
      by (simp add: named_descendants_iff)
    with Tag Cons show ?thesis by auto
  qed
qed

lemma no_h2_in_card: "''h2'' \<notin> set (concat (map tag_names (card_blocks c)))"
  by (auto simp: card_blocks_def heading_def sep_def ul_of_def li_def)

lemma no_h2_in_cards: "''h2'' \<notin> set (concat (map tag_names (concat (map card_blocks cs))))"
proof (induction cs)
  case Nil
  show ?case by simp
next
  case (Cons c cs)
  with no_h2_in_card [of c] show ?case by simp
qed

lemma h2_of_subdecks:
  "filter (\<lambda>el. named ''h2'' (fst el)) (descendants (concat (map subdeck_blocks sds))) = h2_elements sds"
proof (induction sds)
  case Nil
  show ?case by simp
next
  case (Cons sd sds)
  have "filter (\<lambda>el. named ''h2'' (fst el))
          (descendants (concat (map card_blocks (snd sd)) @ concat (map subdeck_blocks sds)))
        = h2_elements sds"
    using filter_descendants_append [OF no_h2_in_cards] Cons.IH by simp
  moreover have "subdeck_blocks sd = Tag ''h2'' [Text (fst sd)] # sep # concat (map card_blocks (snd sd))"
    by (simp add: subdeck_blocks_def heading_def)
  ultimately show ?case
    by (simp add: heading_def sep_def)
qed

lemma find_all_h2_outline: "find_all ''h2'' (outline title sds) = h2_elements sds"
  using h2_of_subdecks [of sds]
  by (simp add: find_all_def outline_def BeautifulSoup_def heading_def sep_def)

lemma find_h1_outline:
  "find ''h1'' (outline title sds) = Some (heading ''h1'' title, sep # concat (map subdeck_blocks sds))"
  by (simp add: find_def find_all_def outline_def BeautifulSoup_def heading_def)

lemma notes_reading_subdecks: "notes_reading (concat (map subdeck_blocks sds)) = Inr []"
  by (cases sds) (simp_all add: subdeck_blocks_def heading_def)

lemma note_reading_card:
  "note_reading (heading ''h3'' q, sep # ul_of items # rest) = Inr (card_view_of (q, items))"
  by (simp add: note_reading_def find_next_sibling_def find_next_siblings_def sep_def ul_of_def
      heading_def card_view_of_def)

lemma notes_reading_cards:
  assumes "notes_reading after = Inr []"
  shows "notes_reading (concat (map card_blocks cs) @ after) = Inr (map card_view_of cs)"
proof (induction cs)
  case Nil
  with assms show ?case by simp
next
  case (Cons c cs)
  obtain q items where c: "c = (q, items)"
    by (cases c)
  have nr: "note_reading (Tag ''h3'' [Text q], sep # ul_of items # sep # concat (map card_blocks cs) @ after)
      = Inr (card_view_of (q, items))"
    using note_reading_card [of q items "sep # concat (map card_blocks cs) @ after"]
    by (simp add: heading_def)
  have skip: "notes_reading (sep # ul_of items # sep # concat (map card_blocks cs) @ after)
      = notes_reading (concat (map card_blocks cs) @ after)"
    by (simp add: sep_def ul_of_def)
  have blocks: "card_blocks (q, items) = [Tag ''h3'' [Text q], sep, ul_of items, sep]"
    by (simp add: card_blocks_def heading_def)
  show ?case
    unfolding c using nr skip Cons.IH by (simp add: blocks)
qed

lemma subdecks_reading_outline: "subdecks_reading (h2_elements sds) = Inr (map subdeck_view_of sds)"
proof (induction sds)
  case Nil
  show ?case by simp
next
  case (Cons sd sds)
  have "notes_reading (sep # concat (map card_blocks (snd sd)) @ concat (map subdeck_blocks sds))
      = Inr (map card_view_of (snd sd))"
    using notes_reading_cards [OF notes_reading_subdecks, of "snd sd" sds] by (simp add: sep_def)
  with Cons.IH show ?case
    by (simp add: subdeck_view_of_def heading_def)
qed

lemma deck_reading_outline: "deck_reading (outline title sds) = Inr (title, map subdeck_view_of sds)"
  by (simp add: deck_reading_def find_h1_outline find_all_h2_outline subdecks_reading_outline
      heading_def)

section \<open>The file name of a deck\<close>

lemma my_deck_lowered: "lower (replace '' '' ''-'' ''My Deck'') = ''my-deck''"
  by code_simp

text \<open>
  C9. \<open>Deck.file_name\<close> replaces every space of the deck name with a hyphen and
  lower-cases the result: character by character, a space becomes a hyphen and any other
  character its lower-case form, so no space is left; and the deck named \<open>My Deck\<close> gets
  the file name \<open>my-deck\<close>.
\<close>

theorem file_name_sanitised:
  "file_name d = map (\<lambda>c. if c = CHR '' '' then CHR ''-'' else lower_char c) (name d)
   \<and> CHR '' '' \<notin> set (file_name d)
   \<and> file_name (d\<lparr>name := ''My Deck''\<rparr>) = ''my-deck''"
proof -
  have "file_name d = map (\<lambda>c. if c = CHR '' '' then CHR ''-'' else lower_char c) (name d)"
    by (simp add: file_name_def lower_def replace_space lower_char_hyphen cong: if_cong)
  moreover have "file_name (d\<lparr>name := ''My Deck''\<rparr>) = ''my-deck''"
    using my_deck_lowered by (simp add: file_name_def)
  ultimately show ?thesis
    using no_space_in_file_name [of d] by simp
qed

theorem file_name_sanitised_witness:
  "file_name \<lparr>id' = 7, name = ''Norse Myths  II'', sub_decks = []\<rparr> = ''norse-myths--ii''
   \<and> file_name \<lparr>id' = 7, name = ''My Deck'', sub_decks = []\<rparr> = ''my-deck''"
proof -
  have low: "map (\<lambda>c. if c = CHR '' '' then CHR ''-'' else lower_char c) ''Norse Myths  II''
      = ''norse-myths--ii''"
    by code_simp
  have "file_name \<lparr>id' = 7, name = ''Norse Myths  II'', sub_decks = []\<rparr>
      = map (\<lambda>c. if c = CHR '' '' then CHR ''-'' else lower_char c) ''Norse Myths  II''"
    using file_name_sanitised [of "\<lparr>id' = 7, name = ''Norse Myths  II'', sub_decks = []\<rparr>"]
    by simp
  moreover have "file_name \<lparr>id' = 7, name = ''My Deck'', sub_decks = []\<rparr> = ''my-deck''"
    using file_name_sanitised [of "\<lparr>id' = 7, name = ''Norse Myths  II'', sub_decks = []\<rparr>"]
    by simp
  ultimately show ?thesis
    by (simp only: low)
qed

section \<open>Formatting a list\<close>

text \<open>
  C4. \<open>format_ul\<close> on the parsed fragment \<open><ul><li>Top</li><li>A</li><li>B</li></ul>\<close>:
  the first item is the top-level line, and each of the two items after it is a line that
  starts with a tab and a dash.
\<close>

theorem format_ul_top_and_siblings:
  "format_ul (BeautifulSoup [Tag ''ul'' [li ''Top'', li ''A'', li ''B'']]) =
     ''Top\<newline>'' @ [CHR 0x09] @ ''- A\<newline>'' @ [CHR 0x09] @ ''- B\<newline>''"
  by code_simp

text \<open>
  C3. \<open>format_ul\<close> on the parsed fragment \<open><ul><li>A</li><li>B</li></ul>\<close>. The
  first item is found by \<open>find\<close>, so the first branch is taken and the second item is
  written as a sub-note, with a tab and a dash: the result is not \<open>A\<newline>B\<newline>\<close>.
\<close>

theorem format_ul_two_items:
  "format_ul (BeautifulSoup [Tag ''ul'' [li ''A'', li ''B'']]) =
     ''A\<newline>'' @ [CHR 0x09] @ ''- B\<newline>''"
  by code_simp

section \<open>A document without a level-1 heading\<close>

text \<open>
  C6. When no tag of the document is an \<open>h1\<close>, \<open>build_deck\<close> raises \<open>ValueError\<close>
  without touching the world: no deck is made, and \<open>traverse\<close>, the builder's call and
  the command \<open>build\<close> end with the same error, nothing printed, nothing drawn and nothing
  written.
\<close>

theorem no_h1_aborts:
  assumes "''h1'' \<notin> set (concat (map tag_names (contents soup)))"
  shows "build_deck soup w = (Inl ValueError, w) \<and> traverse soup w = (Inl ValueError, w)
       \<and> call soup w = (Inl ValueError, w) \<and> build soup w = (Inl ValueError, w)"
proof -
  from assms have "find ''h1'' soup = None"
    by (simp add: find_None_iff)
  then have "build_deck soup w = (Inl ValueError, w)"
    by (rule build_deck_None)
  then show ?thesis
    by (simp add: traverse_def path_exists_def path_isdir_def call_def build_def)
qed

theorem no_h1_aborts_witness:
  "build_deck (BeautifulSoup [Tag ''h2'' [Text ''S''], Tag ''p'' [Text ''x'']]) empty_world
     = (Inl ValueError, empty_world)
   \<and> build (BeautifulSoup [Tag ''h2'' [Text ''S''], Tag ''p'' [Text ''x'']]) empty_world
     = (Inl ValueError, empty_world)"
  using no_h1_aborts [of "BeautifulSoup [Tag ''h2'' [Text ''S''], Tag ''p'' [Text ''x'']]" empty_world]
  by (simp add: BeautifulSoup_def)


section \<open>The back of a card\<close>

lemma sample_ul_sibling:
  "find_next_sibling ''ul'' (heading ''h3'' ''Q'', [Text ''\<newline>'', Tag ''ul'' [li ''a'']])
     = Some (Tag ''ul'' [li ''a''], [])"
  by code_simp

text \<open>
  C7, as the code has it. \<open>create_note\<close> takes the first \<open>ul\<close> among the siblings
  after the heading. When there is none it raises \<open>ValueError\<close>. When there is one, the
  card is created with the text of the heading as its front, and its back is non-empty
  exactly when that list holds a list item.
\<close>

theorem create_note_back:
  "(find_next_sibling ''ul'' h3 = None \<longrightarrow> fst (create_note h3 w) = Inl ValueError)
   \<and> (\<forall>u. find_next_sibling ''ul'' h3 = Some u \<longrightarrow>
          (\<exists>c. fst (create_note h3 w) = Inr c \<and> front c = get_text (fst h3)
               \<and> (back' c \<noteq> []) = (''li'' \<in> set (tag_names (fst u)))))"
  by (simp add: create_note_None create_note_Some format_ul_reparse_empty_iff)

theorem create_note_back_witness:
  "fst (create_note (heading ''h3'' ''Q'', [Tag ''p'' [Text ''x'']]) empty_world) = Inl ValueError
   \<and> (\<exists>c. fst (create_note (heading ''h3'' ''Q'', [Text ''\<newline>'', Tag ''ul'' [li ''a'']]) empty_world) = Inr c
          \<and> front c = ''Q'' \<and> back' c \<noteq> [])"
proof -
  have none: "find_next_sibling ''ul'' (heading ''h3'' ''Q'', [Tag ''p'' [Text ''x'']]) = None"
    by code_simp
  have item: "''li'' \<in> set (tag_names (Tag ''ul'' [li ''a'']))"
    by (simp add: li_def)
  have qtext: "get_text (heading ''h3'' ''Q'') = ''Q''"
    by (simp add: heading_def)
  from create_note_back [of "(heading ''h3'' ''Q'', [Tag ''p'' [Text ''x'']])" empty_world] none
  have "fst (create_note (heading ''h3'' ''Q'', [Tag ''p'' [Text ''x'']]) empty_world) = Inl ValueError"
    by simp
  moreover
  from create_note_back [of "(heading ''h3'' ''Q'', [Text ''\<newline>'', Tag ''ul'' [li ''a'']])" empty_world]
    sample_ul_sibling item qtext
  have "\<exists>c. fst (create_note (heading ''h3'' ''Q'', [Text ''\<newline>'', Tag ''ul'' [li ''a'']]) empty_world) = Inr c
          \<and> front c = ''Q'' \<and> back' c \<noteq> []"
    by simp
  ultimately show ?thesis by simp
qed

text \<open>
  The claim as stated fails for a list without items: the list exists, the card is created,
  and its back is empty.
\<close>

theorem create_note_empty_back:
  "find_next_sibling ''ul'' (heading ''h3'' ''Q'', [Tag ''ul'' []]) = Some (Tag ''ul'' [], [])
   \<and> fst (create_note (heading ''h3'' ''Q'', [Tag ''ul'' []]) empty_world)
       = Inr \<lparr>id' = 999999999, front = ''Q'', back' = [], tags = []\<rparr>"
  by code_simp

section \<open>A card without a list\<close>

text \<open>
  C5, as the code has it. Take a level-2 heading of the document and, among the siblings
  after it, a level-3 heading with no level-2 heading in between. If no \<open>ul\<close> is among
  the siblings after that level-3 heading, then \<open>create_note\<close> raises \<open>ValueError\<close>
  on it in any world, \<open>traverse\<close> and the builder's call raise \<open>ValueError\<close>, so
  \<open>export\<close> is not reached, and neither the files nor \<open>dist\<close> change.
\<close>

theorem card_without_list_aborts:
  assumes "(h2, pre @ Tag ''h3'' cs # post) \<in> set (find_all ''h2'' soup)"
    and "\<forall>n\<in>set pre. \<not> named ''h2'' n"
    and "\<forall>n\<in>set post. \<not> named ''ul'' n"
  shows "fst (create_note (Tag ''h3'' cs, post) w') = Inl ValueError
       \<and> fst (traverse soup w) = Inl ValueError
       \<and> fst (call soup w) = Inl ValueError
       \<and> files (snd (call soup w)) = files w
       \<and> dist (snd (call soup w)) = dist w"
proof -
  have none: "find_next_sibling ''ul'' (Tag ''h3'' cs, post) = None"
    using assms(3) by (rule find_next_sibling_absent)
  then have note_fails: "note_reading (Tag ''h3'' cs, post) = Inl ValueError"
    by (simp add: note_reading_def)
  have "notes_reading (snd (h2, pre @ Tag ''h3'' cs # post)) = Inl ValueError"
    using notes_reading_fails [OF assms(2) note_fails] by simp
  with assms(1) have "deck_reading soup = Inl ValueError"
    by (rule deck_reading_fails)
  then have tr: "fst (traverse soup w) = Inl ValueError"
    by (rule traverse_fails)
  then have cl: "call soup w = (Inl ValueError, snd (traverse soup w))"
    by (rule call_after_failed_traverse)
  have "dist (snd (traverse soup w)) = dist w"
    using traverse_dist [of soup w] tr by simp
  with none tr cl show ?thesis
    by (simp add: create_note_None traverse_files)
qed

theorem card_without_list_aborts_witness:
  "fst (create_note (Tag ''h3'' [Text ''Q''], [Tag ''p'' [Text ''x'']]) empty_world) = Inl ValueError
   \<and> fst (call card_without_list empty_world) = Inl ValueError
   \<and> files (snd (call card_without_list empty_world)) = Map.empty
   \<and> dist (snd (call card_without_list empty_world)) = Missing"
proof -
  have el: "(heading ''h2'' ''S'', [] @ Tag ''h3'' [Text ''Q''] # [Tag ''p'' [Text ''x'']])
      \<in> set (find_all ''h2'' card_without_list)"
    by (simp add: card_without_list_def BeautifulSoup_def heading_def find_all_def)
  have pre: "\<forall>n\<in>set []. \<not> named ''h2'' n"
    by simp
  have post: "\<forall>n\<in>set [Tag ''p'' [Text ''x'']]. \<not> named ''ul'' n"
    by simp
  show ?thesis
    using card_without_list_aborts [OF el pre post, of empty_world empty_world]
    by (simp add: empty_world_def)
qed

text \<open>
  The claim as stated fails for a level-3 heading that comes before the first level-2
  heading: no list follows it, \<open>parse_notes\<close> never visits it, and the run ends by
  writing the package.
\<close>

theorem stray_heading_is_exported:
  "find_next_sibling ''ul'' (heading ''h3'' ''Q'', [heading ''h2'' ''S'']) = None
   \<and> fst (call stray_heading empty_world) = Inr ()
   \<and> map_option package_content (files (snd (call stray_heading empty_world)) ''dist/d.apkg'')
       = Some [(''D::S'', [])]"
  by code_simp

section \<open>Sub-decks and cards of an outline document\<close>

text \<open>
  C2. For an outline document with one level-1 heading, the level-2 headings \<open>sds\<close> and
  \<open>M\<close> cards with their lists under each of them, \<open>traverse\<close> returns a deck named
  by the level-1 heading with one sub-deck per level-2 heading, in document order and with
  no duplicate, and \<open>M\<close> cards in each sub-deck. The loop over the siblings of the root
  object finds nothing, so only the loop over \<open>find_all\<close> adds sub-decks. \<open>traverse\<close>
  also makes the directory \<open>dist\<close>, which raises when a plain file of that name is in
  the way; the deck is returned in every other case.
\<close>

theorem outline_subdecks_and_cards:
  assumes "dist w \<noteq> RegularFile" and "\<forall>sd\<in>set sds. length (snd sd) = M"
  shows "\<exists>d. fst (traverse (outline title sds) w) = Inr d
           \<and> name d = title
           \<and> length (sub_decks d) = length sds
           \<and> map subdeck_name (sub_decks d) = map fst sds
           \<and> (\<forall>sd\<in>set (sub_decks d). length (cards sd) = M)
           \<and> deck_content d = (title, map subdeck_view_of sds)"
proof -
  have "map_sum id deck_content (fst (traverse (outline title sds) w))
      = Inr (title, map subdeck_view_of sds)"
    using traverse_reading [of "outline title sds" w] assms(1)
    by (simp add: deck_reading_outline)
  then obtain d where d: "fst (traverse (outline title sds) w) = Inr d"
    and view: "deck_content d = (title, map subdeck_view_of sds)"
    by (cases "fst (traverse (outline title sds) w)") auto
  from view have nm: "name d = title"
    and sub: "map subdeck_content (sub_decks d) = map subdeck_view_of sds"
    by (simp_all add: deck_content_def)
  from sub have len: "length (sub_decks d) = length sds"
    by (rule map_eq_imp_length_eq)
  have "map fst (map subdeck_content (sub_decks d)) = map fst (map subdeck_view_of sds)"
    using sub by simp
  then have names: "map subdeck_name (sub_decks d) = map fst sds"
    by (simp add: subdeck_content_def subdeck_view_of_def comp_def)
  have cards_m: "length (cards sd) = M" if "sd \<in> set (sub_decks d)" for sd
  proof -
    from that have "subdeck_content sd \<in> set (map subdeck_content (sub_decks d))"
      by simp
    then have "subdeck_content sd \<in> set (map subdeck_view_of sds)"
      by (simp only: sub)
    then obtain x where x: "x \<in> set sds" and eq: "subdeck_content sd = subdeck_view_of x"
      by auto
    from eq have "map card_content (cards sd) = map card_view_of (snd x)"
      by (simp add: subdeck_content_def subdeck_view_of_def)
    then have "length (cards sd) = length (snd x)"
      by (rule map_eq_imp_length_eq)
    with x assms(2) show ?thesis by simp
  qed
  from d nm len names cards_m view show ?thesis
    by blast
qed

theorem outline_subdecks_and_cards_witness:
  "\<exists>d. fst (traverse (outline ''D'' sample_subdecks) empty_world) = Inr d
      \<and> name d = ''D''
      \<and> length (sub_decks d) = 2
      \<and> map subdeck_name (sub_decks d) = [''S1'', ''S2'']
      \<and> (\<forall>sd\<in>set (sub_decks d). length (cards sd) = 2)"
proof -
  have w: "dist empty_world \<noteq> RegularFile"
    by (simp add: empty_world_def)
  have m: "\<forall>sd\<in>set sample_subdecks. length (snd sd) = 2"
    by (simp add: sample_subdecks_def)
  have l: "length sample_subdecks = 2" "map fst sample_subdecks = [''S1'', ''S2'']"
    by (simp_all add: sample_subdecks_def)
  from outline_subdecks_and_cards [OF w m, of "''D''"] l show ?thesis
    by auto
qed

section \<open>Identifiers do not change the content\<close>

text \<open>
  C8. For one document and one file system, two runs that draw different identifiers
  (\<open>ea\<close> and \<open>eb\<close> are the draws) agree on the content of the deck that \<open>traverse\<close>
  returns or on its error, on how the builder's call ends, and on the content of every file
  written. The same holds for a second run that starts from the world the first run left
  behind, with any draws: it ends as the first one did and writes the same content.
\<close>

theorem structure_independent_of_identifiers:
  "map_sum id deck_content (fst (traverse soup (w\<lparr>entropy := ea\<rparr>)))
     = map_sum id deck_content (fst (traverse soup (w\<lparr>entropy := eb\<rparr>)))
   \<and> fst (call soup (w\<lparr>entropy := ea\<rparr>)) = fst (call soup (w\<lparr>entropy := eb\<rparr>))
   \<and> map_option package_content (files (snd (call soup (w\<lparr>entropy := ea\<rparr>))) p)
     = map_option package_content (files (snd (call soup (w\<lparr>entropy := eb\<rparr>))) p)
   \<and> map_sum id deck_content (fst (traverse soup ((snd (call soup w))\<lparr>entropy := ea\<rparr>)))
     = map_sum id deck_content (fst (traverse soup w))
   \<and> fst (call soup ((snd (call soup w))\<lparr>entropy := ea\<rparr>)) = fst (call soup w)
   \<and> map_option package_content (files (snd (call soup ((snd (call soup w))\<lparr>entropy := ea\<rparr>))) p)
     = map_option package_content (files (snd (call soup w)) p)"
proof -
  have again: "(dist (snd (call soup w)) = RegularFile) = (dist w = RegularFile)"
    by (rule call_dist_regular)
  have same_result: "call_reading soup (dist (snd (call soup w))) = call_reading soup (dist w)"
    using again by (cases "deck_reading soup") (simp_all add: call_reading_def)
  have first: "map_sum id deck_content (fst (traverse soup (w\<lparr>entropy := ea\<rparr>)))
     = map_sum id deck_content (fst (traverse soup (w\<lparr>entropy := eb\<rparr>)))"
    by (cases "deck_reading soup") (simp_all add: traverse_reading)
  have second: "fst (call soup (w\<lparr>entropy := ea\<rparr>)) = fst (call soup (w\<lparr>entropy := eb\<rparr>))"
    by (cases "deck_reading soup") (simp_all add: call_result call_reading_def)
  have third: "map_option package_content (files (snd (call soup (w\<lparr>entropy := ea\<rparr>))) p)
     = map_option package_content (files (snd (call soup (w\<lparr>entropy := eb\<rparr>))) p)"
    by (cases "deck_reading soup") (simp_all add: call_files call_reading_def)
  have fourth: "map_sum id deck_content (fst (traverse soup ((snd (call soup w))\<lparr>entropy := ea\<rparr>)))
     = map_sum id deck_content (fst (traverse soup w))"
    using again by (cases "deck_reading soup") (simp_all add: traverse_reading)
  have fifth: "fst (call soup ((snd (call soup w))\<lparr>entropy := ea\<rparr>)) = fst (call soup w)"
    using same_result by (simp add: call_result)
  have sixth: "map_option package_content (files (snd (call soup ((snd (call soup w))\<lparr>entropy := ea\<rparr>))) p)
     = map_option package_content (files (snd (call soup w)) p)"
    using same_result call_files [of soup w p]
    by (cases "deck_reading soup") (simp_all add: call_files)
  from first second third fourth fifth sixth show ?thesis
    by blast
qed

theorem structure_independent_of_identifiers_witness:
  "map_sum id deck_content
     (fst (traverse (outline ''D'' sample_subdecks) (empty_world\<lparr>entropy := (\<lambda>i. 7)\<rparr>)))
   = map_sum id deck_content
     (fst (traverse (outline ''D'' sample_subdecks) (empty_world\<lparr>entropy := (\<lambda>i. 12 * int i)\<rparr>)))
   \<and> fst (call (outline ''D'' sample_subdecks) (empty_world\<lparr>entropy := (\<lambda>i. 7)\<rparr>))
   = fst (call (outline ''D'' sample_subdecks) (empty_world\<lparr>entropy := (\<lambda>i. 12 * int i)\<rparr>))"
  using structure_independent_of_identifiers
    [where soup = "outline ''D'' sample_subdecks" and w = empty_world and ea = "\<lambda>i. 7"
      and eb = "\<lambda>i. 12 * int i" and p = "''dist/d.apkg''"]
  by simp

section \<open>The package written by export\<close>

text \<open>
  C1. \<open>export\<close> on a deck with the sub-decks \<open>S1\<close> and \<open>S2\<close>, one card each,
  with \<open>dist\<close> in place: the call succeeds, and the package written holds a single
  sub-collection, that of \<open>S2\<close> with its card; \<open>S1\<close> and its card are not in it.
\<close>

theorem export_keeps_last_subdeck_only:
  "fst (export two_subdecks (empty_world\<lparr>dist := Directory\<rparr>)) = Inr ()
   \<and> map_option package_content
       (files (snd (export two_subdecks (empty_world\<lparr>dist := Directory\<rparr>))) ''dist/d.apkg'')
     = Some [(''D::S2'', [([''Q2'', ''b\<newline>''], [])])]"
  by code_simp

section \<open>Exporting a deck without sub-decks\<close>

text \<open>
  C10. When the deck has no sub-deck, the loop of \<open>export\<close> never binds
  \<open>anki_subdeck\<close>, and reading it for the package raises \<open>UnboundLocalError\<close>
  before \<open>write_to_file\<close> is reached: the files and \<open>dist\<close> are as they were. So it
  is for a whole run on a document with a level-1 heading and no level-2 heading, unless a
  plain file named \<open>dist\<close> stops \<open>traverse\<close> first: the run ends with
  \<open>UnboundLocalError\<close> and no file is written.
\<close>

theorem export_without_subdecks:
  "(sub_decks d = [] \<longrightarrow>
      fst (export d w) = Inl UnboundLocalError \<and> files (snd (export d w)) = files w
      \<and> dist (snd (export d w)) = dist w)
   \<and> (''h1'' \<in> set (concat (map tag_names (contents soup)))
        \<and> ''h2'' \<notin> set (concat (map tag_names (contents soup)))
        \<and> dist w \<noteq> RegularFile \<longrightarrow>
      fst (call soup w) = Inl UnboundLocalError \<and> files (snd (call soup w)) = files w)"
proof -
  have unbound: "fst (export d' w') = Inl UnboundLocalError \<and> files (snd (export d' w')) = files w'
      \<and> dist (snd (export d' w')) = dist w'" if "sub_decks d' = []" for d' w'
    using that same_fs_simple_model [of w'] by (simp add: export_empty same_fs_def)
  have run: "fst (call soup w) = Inl UnboundLocalError \<and> files (snd (call soup w)) = files w"
    if "''h1'' \<in> set (concat (map tag_names (contents soup)))"
      and "''h2'' \<notin> set (concat (map tag_names (contents soup)))"
      and "dist w \<noteq> RegularFile"
  proof -
    from traverse_without_h2 [OF that] obtain d'
      where d': "fst (traverse soup w) = Inr d'" and empty: "sub_decks d' = []"
      by blast
    have "call soup w = export d' (snd (traverse soup w))"
      using d' by (rule call_after_traverse)
    with unbound [OF empty, of "snd (traverse soup w)"] show ?thesis
      by (simp add: traverse_files)
  qed
  from unbound run show ?thesis
    by blast
qed

theorem export_without_subdecks_witness:
  "fst (export \<lparr>id' = 1, name = ''D'', sub_decks = []\<rparr> empty_world) = Inl UnboundLocalError
   \<and> files (snd (export \<lparr>id' = 1, name = ''D'', sub_decks = []\<rparr> empty_world)) = files empty_world
   \<and> fst (call no_subdecks empty_world) = Inl UnboundLocalError
   \<and> files (snd (call no_subdecks empty_world)) = files empty_world"
proof -
  have h1: "''h1'' \<in> set (concat (map tag_names (contents no_subdecks)))"
    by (simp add: no_subdecks_def BeautifulSoup_def heading_def sep_def)
  have h2: "''h2'' \<notin> set (concat (map tag_names (contents no_subdecks)))"
    by (simp add: no_subdecks_def BeautifulSoup_def heading_def sep_def)
  have fs: "dist empty_world \<noteq> RegularFile"
    by (simp add: empty_world_def)
  from export_without_subdecks
    [where d = "\<lparr>id' = 1, name = ''D'', sub_decks = []\<rparr>" and w = empty_world and soup = no_subdecks]
    h1 h2 fs
  show ?thesis by simp
qed

end
